theory Spec2Isabelle
  imports Complex_Main
begin

section \<open>JavaScript numbers and strings as the server uses them\<close>

text \<open>
  A JavaScript number is modelled by its value: a real number for a finite double, or one
  of the three special values of IEEE arithmetic. The sign of zero is not modelled. The
  special values are kept because the code produces them from finite data: \<open>bestDistance\<close>
  starts at \<open>Infinity\<close>, and reading an array past its end gives \<open>undefined\<close>, which
  arithmetic turns into \<open>NaN\<close>.

  The operations of this section do not round: on two finite numbers they give the exact
  result, on special values the result of IEEE arithmetic. The routes are first written
  with them. The attendance scan, whose outcome depends on rounding, is then written a
  second time with the results of the engine as a parameter.
\<close>

datatype jsnum = Num real | PosInfinity | NegInfinity | NaN

fun js_neg :: "jsnum \<Rightarrow> jsnum" where
  "js_neg (Num x) = Num (- x)"
| "js_neg PosInfinity = NegInfinity"
| "js_neg NegInfinity = PosInfinity"
| "js_neg NaN = NaN"

text \<open>\<open>a + b\<close>\<close>

fun js_add :: "jsnum \<Rightarrow> jsnum \<Rightarrow> jsnum" where
  "js_add (Num x) (Num y) = Num (x + y)"
| "js_add NaN b = NaN"
| "js_add a NaN = NaN"
| "js_add PosInfinity NegInfinity = NaN"
| "js_add NegInfinity PosInfinity = NaN"
| "js_add PosInfinity b = PosInfinity"
| "js_add NegInfinity b = NegInfinity"
| "js_add (Num x) b = b"

text \<open>\<open>a - b\<close>\<close>

definition js_sub :: "jsnum \<Rightarrow> jsnum \<Rightarrow> jsnum" where
  "js_sub a b = js_add a (js_neg b)"

text \<open>\<open>a * b\<close>\<close>

fun js_mul :: "jsnum \<Rightarrow> jsnum \<Rightarrow> jsnum" where
  "js_mul (Num x) (Num y) = Num (x * y)"
| "js_mul NaN b = NaN"
| "js_mul a NaN = NaN"
| "js_mul (Num x) b = (if x = 0 then NaN else if 0 < x then b else js_neg b)"
| "js_mul a (Num y) = (if y = 0 then NaN else if 0 < y then a else js_neg a)"
| "js_mul PosInfinity b = b"
| "js_mul NegInfinity b = js_neg b"

text \<open>\<open>Math.pow(a, 2)\<close>\<close>

fun js_pow2 :: "jsnum \<Rightarrow> jsnum" where
  "js_pow2 (Num x) = Num (x\<^sup>2)"
| "js_pow2 PosInfinity = PosInfinity"
| "js_pow2 NegInfinity = PosInfinity"
| "js_pow2 NaN = NaN"

text \<open>\<open>Math.sqrt(a)\<close>\<close>

fun js_sqrt :: "jsnum \<Rightarrow> jsnum" where
  "js_sqrt (Num x) = (if x < 0 then NaN else Num (sqrt x))"
| "js_sqrt PosInfinity = PosInfinity"
| "js_sqrt NegInfinity = NaN"
| "js_sqrt NaN = NaN"

text \<open>\<open>Math.round(a)\<close>: the nearest integer, a half rounded towards \<open>+Infinity\<close>.\<close>

fun js_round :: "jsnum \<Rightarrow> jsnum" where
  "js_round (Num x) = Num (of_int \<lfloor>x + 1 / 2\<rfloor>)"
| "js_round PosInfinity = PosInfinity"
| "js_round NegInfinity = NegInfinity"
| "js_round NaN = NaN"

text \<open>\<open>a < b\<close>: false as soon as one side is \<open>NaN\<close>.\<close>

fun js_less :: "jsnum \<Rightarrow> jsnum \<Rightarrow> bool" where
  "js_less (Num x) (Num y) = (x < y)"
| "js_less (Num x) PosInfinity = True"
| "js_less NegInfinity (Num y) = True"
| "js_less NegInfinity PosInfinity = True"
| "js_less a b = False"

text \<open>
  \<open>arr[i]\<close> read as a number: the element inside the array; past its end \<open>undefined\<close>,
  which the subtraction in \<open>euclideanDistance\<close> converts to \<open>NaN\<close>.
\<close>

definition js_index :: "real list \<Rightarrow> nat \<Rightarrow> jsnum" where
  "js_index arr i = (if i < length arr then Num (arr ! i) else NaN)"

text \<open>
  Strings are sequences of code units below 256 (Latin-1). \<open>toLowerCase\<close> moves the
  letters \<open>A\<close>..\<open>Z\<close> and the accented capitals \<open>U+00C0\<close>..\<open>U+00DE\<close> (the multiplication
  sign \<open>U+00D7\<close> apart) up by 32 and leaves every other code unit of that range alone.
\<close>

definition lower_char :: "char \<Rightarrow> char" where
  "lower_char c =
     (let n = (of_char c :: nat)
      in if 65 \<le> n \<and> n \<le> 90 then char_of (n + 32)
         else if 192 \<le> n \<and> n \<le> 222 \<and> n \<noteq> 215 then char_of (n + 32)
         else c)"

definition toLowerCase :: "string \<Rightarrow> string" where
  "toLowerCase s = map lower_char s"

text \<open>
  \<open>trim\<close> removes white space and line terminators from both ends; below 256 these are
  tab, line feed, vertical tab, form feed, carriage return, space and no-break space.
\<close>

definition white_space :: "char \<Rightarrow> bool" where
  "white_space c = ((of_char c :: nat) \<in> {9, 10, 11, 12, 13, 32, 160})"

definition trim :: "string \<Rightarrow> string" where
  "trim s = rev (dropWhile white_space (rev (dropWhile white_space s)))"

text \<open>
  \<open>arr.findIndex(pred)\<close>: the index of the first element that satisfies \<open>pred\<close>, and
  \<open>-1\<close> when there is none.
\<close>

definition findIndex :: "('a \<Rightarrow> bool) \<Rightarrow> 'a list \<Rightarrow> int" where
  "findIndex pred arr =
     (let k = length (takeWhile (\<lambda>x. \<not> pred x) arr)
      in if k < length arr then int k else - 1)"

section \<open>Data model\<close>

text \<open>The objects kept in \<open>data/faces.json\<close> and \<open>data/attendance.json\<close>.\<close>

record FaceRecord =
  name :: string
  descriptor :: "real list"
  registeredAt :: string

record AttendanceRecord =
  att_name :: string
  timestamp :: string
  confidence :: jsnum

text \<open>
  A JSON file of the data directory is absent, holds text that \<open>JSON.parse\<close> rejects, or
  holds the text of a sequence of records. The text is identified with the sequence it
  denotes: on these records, whose numbers are finite, \<open>JSON.parse\<close> reads back what
  \<open>JSON.stringify\<close> wrote (\<open>store_of_faces_round_trip\<close> below). Writing a file always
  succeeds in the model.
\<close>

datatype 'a json_file = Absent | Unparsable | Holds "'a list"

record disk =
  faces_json :: "FaceRecord json_file"
  attendance_json :: "AttendanceRecord json_file"

text \<open>What a handler's \<open>catch\<close> block can see.\<close>

datatype error = SyntaxError | ImageLoadError

text \<open>\<open>loadFaces\<close> and \<open>saveFaces\<close>, on \<open>FACES_DB_PATH\<close>.\<close>

definition loadFaces :: "disk \<Rightarrow> error + FaceRecord list" where
  "loadFaces fs =
     (case faces_json fs of
        Holds faces \<Rightarrow> Inr faces
      | Unparsable \<Rightarrow> Inl SyntaxError
      | Absent \<Rightarrow> Inr [])"

definition saveFaces :: "FaceRecord list \<Rightarrow> disk \<Rightarrow> disk" where
  "saveFaces faces fs = fs\<lparr>faces_json := Holds faces\<rparr>"

text \<open>
  The image pipeline behind \<open>extractFaceDescriptor\<close> (removal of the data-URL prefix,
  base64 decoding, \<open>napiCanvas.loadImage\<close> and the face-api.js detector) is an external
  capability: a function from the request's image string to one of four outcomes.
  \<open>loadImage\<close> is called outside the \<open>try\<close>, so its failure reaches the handler; a detector
  exception is caught and becomes \<open>null\<close>; no face gives \<open>undefined\<close>. Both are falsy and
  are \<open>None\<close> here.
\<close>

datatype detection = LoadImageFails | DetectorThrows | NoFace | Face "real list"

definition extractFaceDescriptor :: "(string \<Rightarrow> detection) \<Rightarrow> string \<Rightarrow> error + real list option" where
  "extractFaceDescriptor faceapi base64Image =
     (case faceapi base64Image of
        LoadImageFails \<Rightarrow> Inl ImageLoadError
      | DetectorThrows \<Rightarrow> Inr None
      | NoFace \<Rightarrow> Inr None
      | Face d \<Rightarrow> Inr (Some d))"

text \<open>
  \<open>euclideanDistance\<close>: the loop runs over the indices of \<open>desc1\<close> only.
\<close>

definition euclideanDistance :: "real list \<Rightarrow> real list \<Rightarrow> jsnum" where
  "euclideanDistance desc1 desc2 =
     js_sqrt (fold (\<lambda>i sum. js_add sum (js_pow2 (js_sub (js_index desc1 i) (js_index desc2 i))))
                [0..<length desc1] (Num 0))"

section \<open>The routes\<close>

text \<open>
  A field of the request body is absent or a string. \<open>!field\<close> holds for an absent field
  and for the empty string; \<open>required\<close> gives the field's value when it is truthy.
\<close>

definition required :: "string option \<Rightarrow> string option" where
  "required field = (case field of None \<Rightarrow> None | Some s \<Rightarrow> if s = [] then None else Some s)"

record register_body =
  body_name :: "string option"
  body_image :: "string option"

text \<open>
  The replies, by what the route sends:
  \<^item> \<open>NameAndImageRequired\<close>, \<open>ImageRequired\<close>, \<open>NoFaceDetected\<close>: status 400, \<open>success: false\<close>;
  \<^item> \<open>NoFacesRegistered\<close>: status 404, \<open>success: false\<close>;
  \<^item> \<open>ServerError\<close>: status 500, from a \<open>catch\<close> block (from the framework for \<open>GET /api/faces\<close>);
  \<^item> \<open>FaceRegistered name totalRegistered\<close>: status 200, the message names the request's \<open>name\<close>;
  \<^item> \<open>AttendanceMarked name confidence timestamp\<close>: status 200, \<open>success: true, matched: true\<close>;
  \<^item> \<open>NotRecognized\<close>: status 200, \<open>success: true, matched: false\<close> and a message, nothing else;
  \<^item> \<open>FacesListed count faces\<close>: status 200, each face as its \<open>name\<close> and \<open>registeredAt\<close>.
\<close>

datatype reply =
    NameAndImageRequired
  | ImageRequired
  | NoFaceDetected
  | NoFacesRegistered
  | ServerError error
  | FaceRegistered string nat
  | AttendanceMarked string jsnum string
  | NotRecognized
  | FacesListed nat "(string \<times> string) list"

text \<open>
  \<open>POST /api/register\<close>. \<open>now\<close> is what \<open>new Date().toISOString()\<close> returns during the
  call. The handler returns the reply and the data directory it leaves.
\<close>

definition post_register ::
  "(string \<Rightarrow> detection) \<Rightarrow> string \<Rightarrow> register_body \<Rightarrow> disk \<Rightarrow> reply \<times> disk" where
  "post_register faceapi now body fs =
     (case (required (body_name body), required (body_image body)) of
        (Some name', Some image') \<Rightarrow>
          (case extractFaceDescriptor faceapi image' of
             Inl e \<Rightarrow> (ServerError e, fs)
           | Inr None \<Rightarrow> (NoFaceDetected, fs)
           | Inr (Some detected) \<Rightarrow>
               (case loadFaces fs of
                  Inl e \<Rightarrow> (ServerError e, fs)
                | Inr faces \<Rightarrow>
                    (let existingIndex =
                           findIndex (\<lambda>f. toLowerCase (name f) = toLowerCase name') faces;
                         faceRecord =
                           \<lparr>name = trim name', descriptor = detected, registeredAt = now\<rparr>;
                         faces' =
                           (if existingIndex \<ge> 0 then faces[nat existingIndex := faceRecord]
                            else faces @ [faceRecord])
                     in (FaceRegistered name' (length faces'), saveFaces faces' fs))))
      | _ \<Rightarrow> (NameAndImageRequired, fs))"

text \<open>
  The scan of \<open>POST /api/attendance\<close> for the best match: \<open>bestMatch\<close> starts as \<open>null\<close>
  and \<open>bestDistance\<close> as \<open>Infinity\<close>; a face replaces the best one only when its distance is
  strictly smaller. The stored descriptor passes through \<open>new Float32Array\<close>, which keeps
  its length and, in this model of numbers, its values.
\<close>

definition THRESHOLD :: jsnum where
  "THRESHOLD = Num (6 / 10)"

definition scan_step :: "real list \<Rightarrow> FaceRecord \<Rightarrow> FaceRecord option \<times> jsnum \<Rightarrow> FaceRecord option \<times> jsnum" where
  "scan_step probe face best =
     (let distance = euclideanDistance probe (descriptor face)
      in if js_less distance (snd best) then (Some face, distance) else best)"

definition best_match :: "real list \<Rightarrow> FaceRecord list \<Rightarrow> FaceRecord option \<times> jsnum" where
  "best_match probe faces = fold (scan_step probe) faces (None, PosInfinity)"

text \<open>The attendance log is read and rewritten only in the branch of a match.\<close>

definition loadAttendance :: "disk \<Rightarrow> error + AttendanceRecord list" where
  "loadAttendance fs =
     (case attendance_json fs of
        Holds attendanceLog \<Rightarrow> Inr attendanceLog
      | Unparsable \<Rightarrow> Inl SyntaxError
      | Absent \<Rightarrow> Inr [])"

definition post_attendance ::
  "(string \<Rightarrow> detection) \<Rightarrow> string \<Rightarrow> string option \<Rightarrow> disk \<Rightarrow> reply \<times> disk" where
  "post_attendance faceapi now body_image' fs =
     (case required body_image' of
        None \<Rightarrow> (ImageRequired, fs)
      | Some image' \<Rightarrow>
          (case extractFaceDescriptor faceapi image' of
             Inl e \<Rightarrow> (ServerError e, fs)
           | Inr None \<Rightarrow> (NoFaceDetected, fs)
           | Inr (Some detected) \<Rightarrow>
               (case loadFaces fs of
                  Inl e \<Rightarrow> (ServerError e, fs)
                | Inr faces \<Rightarrow>
                    if length faces = 0 then (NoFacesRegistered, fs)
                    else
                      (case best_match detected faces of
                         (Some bestMatch, bestDistance) \<Rightarrow>
                           if js_less bestDistance THRESHOLD then
                             (let attendanceRecord =
                                    \<lparr>att_name = name bestMatch, timestamp = now,
                                     confidence =
                                       js_round (js_mul (js_sub (Num 1) bestDistance) (Num 100))\<rparr>
                              in case loadAttendance fs of
                                   Inl e \<Rightarrow> (ServerError e, fs)
                                 | Inr attendanceLog \<Rightarrow>
                                     (AttendanceMarked (name bestMatch)
                                        (confidence attendanceRecord) (timestamp attendanceRecord),
                                      fs\<lparr>attendance_json := Holds (attendanceLog @ [attendanceRecord])\<rparr>))
                           else (NotRecognized, fs)
                       | (None, bestDistance) \<Rightarrow> (NotRecognized, fs)))))"

text \<open>
  \<open>GET /api/faces\<close> has no \<open>try\<close> of its own: a parse failure leaves the handler as an
  exception, which the framework answers with status 500.
\<close>

definition get_faces :: "disk \<Rightarrow> reply" where
  "get_faces fs =
     (case loadFaces fs of
        Inl e \<Rightarrow> ServerError e
      | Inr faces \<Rightarrow> FacesListed (length faces) (map (\<lambda>f. (name f, registeredAt f)) faces))"

section \<open>The attendance scan as the engine computes it\<close>

text \<open>
  On two finite numbers the engine gives a rounded result: the sum, the difference and the
  product rounded to a double, \<open>Math.pow\<close> and \<open>Math.sqrt\<close> as the engine approximates
  them, and the element that a \<open>Float32Array\<close> keeps of a number. These results are a
  parameter here, and nothing is assumed of them: what is proved of the scan holds of
  every engine. On special values the operations are those of the first section, where
  nothing is rounded. Comparisons and \<open>Math.round\<close> are exact on doubles.
\<close>

record engine =
  fp_add :: "real \<Rightarrow> real \<Rightarrow> jsnum"
  fp_sub :: "real \<Rightarrow> real \<Rightarrow> jsnum"
  fp_mul :: "real \<Rightarrow> real \<Rightarrow> jsnum"
  fp_pow2 :: "real \<Rightarrow> jsnum"
  fp_sqrt :: "real \<Rightarrow> jsnum"
  to_float32 :: "real \<Rightarrow> jsnum"

text \<open>
  An operation of the engine: its result on finite operands, the rule of IEEE arithmetic
  as soon as an operand is special.
\<close>

definition rounded1 :: "(real \<Rightarrow> jsnum) \<Rightarrow> (jsnum \<Rightarrow> jsnum) \<Rightarrow> jsnum \<Rightarrow> jsnum" where
  "rounded1 on_numbers otherwise a = (case a of Num x \<Rightarrow> on_numbers x | _ \<Rightarrow> otherwise a)"

definition rounded2 ::
  "(real \<Rightarrow> real \<Rightarrow> jsnum) \<Rightarrow> (jsnum \<Rightarrow> jsnum \<Rightarrow> jsnum) \<Rightarrow> jsnum \<Rightarrow> jsnum \<Rightarrow> jsnum" where
  "rounded2 on_numbers otherwise a b =
     (case (a, b) of (Num x, Num y) \<Rightarrow> on_numbers x y | _ \<Rightarrow> otherwise a b)"

text \<open>
  \<open>arr[i]\<close> for an array of numbers: past its end \<open>undefined\<close>, which the subtraction
  converts to \<open>NaN\<close>.
\<close>

definition element :: "jsnum list \<Rightarrow> nat \<Rightarrow> jsnum" where
  "element arr i = (if i < length arr then arr ! i else NaN)"

text \<open>
  \<open>euclideanDistance\<close> in the engine's arithmetic.
\<close>

definition euclideanDistance_fp :: "engine \<Rightarrow> jsnum list \<Rightarrow> jsnum list \<Rightarrow> jsnum" where
  "euclideanDistance_fp eng desc1 desc2 =
     rounded1 (fp_sqrt eng) js_sqrt
       (fold (\<lambda>i sum. rounded2 (fp_add eng) js_add sum
                 (rounded1 (fp_pow2 eng) js_pow2
                    (rounded2 (fp_sub eng) js_sub (element desc1 i) (element desc2 i))))
          [0..<length desc1] (Num 0))"

text \<open>
  The literal \<open>0.6\<close> denotes the double nearest to it, which is
  5404319552844595 / 9007199254740992 (the denominator is 2 to the power 53).
\<close>

definition THRESHOLD_fp :: jsnum where
  "THRESHOLD_fp = Num (5404319552844595 / 9007199254740992)"

text \<open>
  The distance that the scan computes for a stored face: the probe is a \<open>Float32Array\<close> of
  finite numbers, the stored descriptor passes through \<open>new Float32Array\<close>.
\<close>

definition computed_distance :: "engine \<Rightarrow> real list \<Rightarrow> FaceRecord \<Rightarrow> jsnum" where
  "computed_distance eng probe face =
     euclideanDistance_fp eng (map Num probe) (map (to_float32 eng) (descriptor face))"

definition scan_step_fp ::
  "engine \<Rightarrow> real list \<Rightarrow> FaceRecord \<Rightarrow> FaceRecord option \<times> jsnum \<Rightarrow> FaceRecord option \<times> jsnum" where
  "scan_step_fp eng probe face best =
     (let distance = computed_distance eng probe face
      in if js_less distance (snd best) then (Some face, distance) else best)"

definition best_match_fp :: "engine \<Rightarrow> real list \<Rightarrow> FaceRecord list \<Rightarrow> FaceRecord option \<times> jsnum" where
  "best_match_fp eng probe faces = fold (scan_step_fp eng probe) faces (None, PosInfinity)"

text \<open>
  \<open>Math.round((1 - bestDistance) * 100)\<close>
\<close>

definition computed_confidence :: "engine \<Rightarrow> jsnum \<Rightarrow> jsnum" where
  "computed_confidence eng bestDistance =
     js_round (rounded2 (fp_mul eng) js_mul
                 (rounded2 (fp_sub eng) js_sub (Num 1) bestDistance) (Num 100))"

text \<open>
  \<open>POST /api/attendance\<close> with the engine's arithmetic: the handler above, line by line,
  but for the numbers.
\<close>

definition post_attendance_fp ::
  "engine \<Rightarrow> (string \<Rightarrow> detection) \<Rightarrow> string \<Rightarrow> string option \<Rightarrow> disk \<Rightarrow> reply \<times> disk" where
  "post_attendance_fp eng faceapi now body_image' fs =
     (case required body_image' of
        None \<Rightarrow> (ImageRequired, fs)
      | Some image' \<Rightarrow>
          (case extractFaceDescriptor faceapi image' of
             Inl e \<Rightarrow> (ServerError e, fs)
           | Inr None \<Rightarrow> (NoFaceDetected, fs)
           | Inr (Some detected) \<Rightarrow>
               (case loadFaces fs of
                  Inl e \<Rightarrow> (ServerError e, fs)
                | Inr faces \<Rightarrow>
                    if length faces = 0 then (NoFacesRegistered, fs)
                    else
                      (case best_match_fp eng detected faces of
                         (Some bestMatch, bestDistance) \<Rightarrow>
                           if js_less bestDistance THRESHOLD_fp then
                             (let attendanceRecord =
                                    \<lparr>att_name = name bestMatch, timestamp = now,
                                     confidence = computed_confidence eng bestDistance\<rparr>
                              in case loadAttendance fs of
                                   Inl e \<Rightarrow> (ServerError e, fs)
                                 | Inr attendanceLog \<Rightarrow>
                                     (AttendanceMarked (name bestMatch)
                                        (confidence attendanceRecord) (timestamp attendanceRecord),
                                      fs\<lparr>attendance_json := Holds (attendanceLog @ [attendanceRecord])\<rparr>))
                           else (NotRecognized, fs)
                       | (None, bestDistance) \<Rightarrow> (NotRecognized, fs)))))"

text \<open>
  An engine that rounds nothing. Where every intermediate result is a small integer, as
  in the examples below, the arithmetic of doubles gives the same results.
\<close>

definition exact_engine :: engine where
  "exact_engine =
     \<lparr>fp_add = (\<lambda>x y. Num (x + y)), fp_sub = (\<lambda>x y. Num (x - y)),
      fp_mul = (\<lambda>x y. Num (x * y)), fp_pow2 = (\<lambda>x. Num (x\<^sup>2)),
      fp_sqrt = (\<lambda>x. if x < 0 then NaN else Num (sqrt x)), to_float32 = Num\<rparr>"

section \<open>The store file as JSON\<close>

text \<open>
  What \<open>JSON.parse\<close> can return: \<open>null\<close>, a boolean, a number (finite, or infinite for
  a literal such as \<open>1e999\<close> that overflows), a string, an array, or an object, as the list
  of its properties in the order of enumeration.
\<close>

datatype json =
    JNull
  | JBool bool
  | JNumber jsnum
  | JString string
  | JArray "json list"
  | JObject "(string \<times> json) list"

text \<open>
  \<open>JSON.parse(JSON.stringify(v))\<close> as a function of the value \<open>v\<close>. \<open>JSON.stringify\<close>
  writes \<open>null\<close> for a number that is not finite and, for a finite number, a literal that
  \<open>JSON.parse\<close> reads back as the same number; strings are read back as they were, arrays
  and objects part by part.
\<close>

primrec stringify_parse :: "json \<Rightarrow> json" where
  "stringify_parse JNull = JNull"
| "stringify_parse (JBool b) = JBool b"
| "stringify_parse (JNumber n) = (case n of Num x \<Rightarrow> JNumber (Num x) | _ \<Rightarrow> JNull)"
| "stringify_parse (JString s) = JString s"
| "stringify_parse (JArray elements) = JArray (map stringify_parse elements)"
| "stringify_parse (JObject properties) = JObject (map (map_prod id stringify_parse) properties)"

text \<open>
  Every number inside the value is finite.
\<close>

fun numbers_finite :: "json \<Rightarrow> bool" where
  "numbers_finite (JNumber n) = (case n of Num x \<Rightarrow> True | _ \<Rightarrow> False)"
| "numbers_finite (JArray elements) = list_all numbers_finite elements"
| "numbers_finite (JObject properties) = list_all (\<lambda>(key, v). numbers_finite v) properties"
| "numbers_finite v = True"

text \<open>
  The file at \<open>FACES_DB_PATH\<close>, by what \<open>JSON.parse\<close> makes of its text: there is no
  file, the text is rejected, or it denotes a value. Two texts that denote the same value
  are structurally equivalent. \<open>loadFaces\<close> returns the value, and \<open>[]\<close> when there is no
  file; \<open>saveFaces\<close> writes \<open>JSON.stringify\<close> of its argument, a text that denotes
  \<open>stringify_parse\<close> of it.
\<close>

datatype faces_file = NoFile | NotJSON | Denotes json

definition loadFaces_raw :: "faces_file \<Rightarrow> error + json" where
  "loadFaces_raw file =
     (case file of
        Denotes data \<Rightarrow> Inr data
      | NotJSON \<Rightarrow> Inl SyntaxError
      | NoFile \<Rightarrow> Inr (JArray []))"

definition saveFaces_raw :: "json \<Rightarrow> faces_file" where
  "saveFaces_raw faces = Denotes (stringify_parse faces)"

text \<open>
  The JSON value of a face record of the data model.
\<close>

definition json_of_face :: "FaceRecord \<Rightarrow> json" where
  "json_of_face f =
     JObject [(''name'', JString (name f)),
              (''descriptor'', JArray (map (\<lambda>x. JNumber (Num x)) (descriptor f))),
              (''registeredAt'', JString (registeredAt f))]"

section \<open>The distance of the design\<close>

text \<open>
  The Euclidean distance as the design document writes it, for two signatures of one
  length: the square root of the sum of the squared differences of their components.
\<close>

definition spec_distance :: "real list \<Rightarrow> real list \<Rightarrow> real" where
  "spec_distance probe signature = sqrt (\<Sum>i<length probe. (probe ! i - signature ! i)\<^sup>2)"

section \<open>What \<open>euclideanDistance\<close> computes\<close>

text \<open>After \<open>n\<close> rounds inside both arrays, \<open>sum\<close> holds the first \<open>n\<close> squared differences.\<close>

lemma sum_loop_prefix:
  "n \<le> length desc1 \<Longrightarrow> n \<le> length desc2 \<Longrightarrow>
   fold (\<lambda>i sum. js_add sum (js_pow2 (js_sub (js_index desc1 i) (js_index desc2 i)))) [0..<n] (Num 0)
     = Num (\<Sum>i<n. (desc1 ! i - desc2 ! i)\<^sup>2)"
proof (induction n)
  case 0
  show ?case by simp
next
  case (Suc n)
  then show ?case by (simp add: js_index_def js_sub_def)
qed

text \<open>Once \<open>sum\<close> is \<open>NaN\<close> it stays \<open>NaN\<close>.\<close>

lemma sum_loop_NaN:
  "fold (\<lambda>i sum. js_add sum (js_pow2 (js_sub (js_index desc1 i) (js_index desc2 i)))) is NaN = NaN"
  by (induction "is") simp_all

lemma euclideanDistance_covering:
  assumes "length desc1 \<le> length desc2"
  shows "euclideanDistance desc1 desc2 = Num (sqrt (\<Sum>i<length desc1. (desc1 ! i - desc2 ! i)\<^sup>2))"
proof -
  have "(\<Sum>i<length desc1. (desc1 ! i - desc2 ! i)\<^sup>2) \<ge> 0"
    by (simp add: sum_nonneg)
  then show ?thesis
    using assms by (simp add: euclideanDistance_def sum_loop_prefix)
qed

lemma euclideanDistance_short:
  assumes "length desc2 < length desc1"
  shows "euclideanDistance desc1 desc2 = NaN"
proof -
  let ?step = "\<lambda>i sum. js_add sum (js_pow2 (js_sub (js_index desc1 i) (js_index desc2 i)))"
  have split: "[0..<length desc1] = [0..<length desc2] @ length desc2 # [Suc (length desc2)..<length desc1]"
  proof -
    have "[0..<length desc1] = [0..<length desc2] @ [length desc2..<length desc1]"
      using assms upt_add_eq_append [of 0 "length desc2" "length desc1 - length desc2"] by simp
    then show ?thesis using assms by (simp add: upt_conv_Cons)
  qed
  have "fold ?step [0..<length desc2] (Num 0) = Num (\<Sum>i<length desc2. (desc1 ! i - desc2 ! i)\<^sup>2)"
    using assms by (simp add: sum_loop_prefix)
  moreover have "?step (length desc2) (Num s) = NaN" for s
    using assms by (simp add: js_index_def js_sub_def)
  ultimately have "fold ?step [0..<length desc1] (Num 0) = NaN"
    by (simp add: split sum_loop_NaN del: upt.simps)
  then show ?thesis by (simp add: euclideanDistance_def)
qed

lemma euclideanDistance_same_length:
  "length desc2 = length desc1 \<Longrightarrow> euclideanDistance desc1 desc2 = Num (spec_distance desc1 desc2)"
  by (simp add: euclideanDistance_covering spec_distance_def)

lemma euclideanDistance_range:
  "euclideanDistance desc1 desc2 = NaN \<or> (\<exists>d\<ge>0. euclideanDistance desc1 desc2 = Num d)"
proof (cases "length desc2 < length desc1")
  case True
  then show ?thesis by (simp add: euclideanDistance_short)
next
  case False
  then have "euclideanDistance desc1 desc2
               = Num (sqrt (\<Sum>i<length desc1. (desc1 ! i - desc2 ! i)\<^sup>2))"
    by (simp add: euclideanDistance_covering)
  moreover have "0 \<le> sqrt (\<Sum>i<length desc1. (desc1 ! i - desc2 ! i)\<^sup>2)"
    by (simp add: sum_nonneg)
  ultimately show ?thesis by blast
qed

section \<open>The scan for the best match\<close>

lemma best_match_snoc:
  "best_match probe (faces @ [face]) = scan_step probe face (best_match probe faces)"
  by (simp add: best_match_def)

text \<open>
  The scan ends with nothing selected and \<open>Infinity\<close>, or with a face of the store and a
  finite distance that is not negative.
\<close>

lemma best_match_range:
  "best_match probe faces = (None, PosInfinity) \<or>
   (\<exists>face d. face \<in> set faces \<and> 0 \<le> d \<and> best_match probe faces = (Some face, Num d))"
proof (induction faces rule: rev_induct)
  case Nil
  show ?case by (simp add: best_match_def)
next
  case (snoc face faces)
  let ?best = "best_match probe faces"
  have step: "best_match probe (faces @ [face]) =
                (if js_less (euclideanDistance probe (descriptor face)) (snd ?best)
                 then (Some face, euclideanDistance probe (descriptor face)) else ?best)"
    by (simp add: best_match_snoc scan_step_def)
  show ?case
  proof (cases "js_less (euclideanDistance probe (descriptor face)) (snd ?best)")
    case True
    then obtain d where "0 \<le> d" "euclideanDistance probe (descriptor face) = Num d"
      using euclideanDistance_range [of probe "descriptor face"] by auto
    with True step show ?thesis by auto
  next
    case False
    with step snoc.IH show ?thesis by auto
  qed
qed

text \<open>
  With every stored descriptor as long as the probe, the scan ends at the first face whose
  distance is the least.
\<close>

lemma best_match_first_minimum:
  assumes "faces \<noteq> []"
      and "\<forall>f\<in>set faces. length (descriptor f) = length probe"
  shows "\<exists>i<length faces.
           (\<forall>j<length faces. spec_distance probe (descriptor (faces ! i))
                                \<le> spec_distance probe (descriptor (faces ! j))) \<and>
           (\<forall>j<i. spec_distance probe (descriptor (faces ! i))
                     < spec_distance probe (descriptor (faces ! j))) \<and>
           best_match probe faces
             = (Some (faces ! i), Num (spec_distance probe (descriptor (faces ! i))))"
  using assms
proof (induction faces rule: rev_induct)
  case Nil
  then show ?case by simp
next
  case (snoc face faces)
  let ?D = "\<lambda>f. spec_distance probe (descriptor f)"
  have dist: "euclideanDistance probe (descriptor face) = Num (?D face)"
    using snoc.prems by (simp add: euclideanDistance_same_length)
  show ?case
  proof (cases "faces = []")
    case True
    then have "best_match probe (faces @ [face]) = (Some face, Num (?D face))"
      by (simp add: best_match_def scan_step_def dist)
    with True show ?thesis by simp
  next
    case False
    with snoc obtain i where i: "i < length faces"
      and least: "\<forall>j<length faces. ?D (faces ! i) \<le> ?D (faces ! j)"
      and first: "\<forall>j<i. ?D (faces ! i) < ?D (faces ! j)"
      and best: "best_match probe faces = (Some (faces ! i), Num (?D (faces ! i)))"
      by auto
    show ?thesis
    proof (cases "?D face < ?D (faces ! i)")
      case True
      then have "best_match probe (faces @ [face]) = (Some face, Num (?D face))"
        by (simp add: best_match_snoc best scan_step_def dist)
      moreover have "\<forall>j<length faces. ?D face < ?D (faces ! j)"
        using True least by fastforce
      ultimately show ?thesis
        by (intro exI [of _ "length faces"]) (auto simp: nth_append less_Suc_eq)
    next
      case False
      then have "best_match probe (faces @ [face]) = (Some (faces ! i), Num (?D (faces ! i)))"
        by (simp add: best_match_snoc best scan_step_def dist)
      moreover have "?D (faces ! i) \<le> ?D face"
        using False by simp
      ultimately show ?thesis
        using i least first
        by (intro exI [of _ i]) (auto simp: nth_append less_Suc_eq)
    qed
  qed
qed

text \<open>A distance in \<open>[0, 0.6)\<close> rounds to a confidence between 40 and 100.\<close>

lemma confidence_range:
  fixes d :: real
  assumes "0 \<le> d" and "d < 6 / 10"
  shows "40 \<le> \<lfloor>(1 - d) * 100 + 1 / 2\<rfloor> \<and> \<lfloor>(1 - d) * 100 + 1 / 2\<rfloor> \<le> 100"
  using assms by (simp add: le_floor_iff floor_le_iff)

section \<open>\<open>findIndex\<close>\<close>

lemma findIndex_first:
  assumes "i < length arr" and "pred (arr ! i)" and "\<forall>j<i. \<not> pred (arr ! j)"
  shows "findIndex pred arr = int i"
proof -
  have "takeWhile (\<lambda>x. \<not> pred x) arr = take i arr"
    using assms by (intro takeWhile_eq_take_P_nth) auto
  then show ?thesis using assms by (simp add: findIndex_def)
qed

lemma findIndex_none:
  assumes "\<forall>x\<in>set arr. \<not> pred x"
  shows "findIndex pred arr = - 1"
proof -
  have "length (takeWhile (\<lambda>x. \<not> pred x) arr) = length arr"
    using assms by (induction arr) auto
  then show ?thesis by (simp add: findIndex_def Let_def)
qed

lemma findIndex_hit:
  assumes "findIndex pred arr \<ge> 0"
  shows "nat (findIndex pred arr) < length arr \<and> pred (arr ! nat (findIndex pred arr))"
proof -
  let ?k = "length (takeWhile (\<lambda>x. \<not> pred x) arr)"
  from assms have k: "?k < length arr" and idx: "findIndex pred arr = int ?k"
    by (auto simp: findIndex_def Let_def split: if_splits)
  from k have "\<not> \<not> pred (arr ! ?k)" by (rule nth_length_takeWhile)
  with k idx show ?thesis by simp
qed

lemma findIndex_miss:
  assumes "\<not> findIndex pred arr \<ge> 0"
  shows "\<forall>x\<in>set arr. \<not> pred x"
proof -
  from assms have "length (takeWhile (\<lambda>x. \<not> pred x) arr) = length arr"
    using length_takeWhile_le [of "\<lambda>x. \<not> pred x" arr]
    by (auto simp: findIndex_def Let_def split: if_splits)
  then have "takeWhile (\<lambda>x. \<not> pred x) arr = arr"
    by (metis takeWhile_eq_take take_all order_refl)
  then show ?thesis by simp
qed

section \<open>The order of numbers\<close>

text \<open>
  \<open><\<close> is a strict order on the numbers other than \<open>NaN\<close>, any two of which it
  compares; with \<open>NaN\<close> on either side it is false.
\<close>

lemma js_less_irrefl: "\<not> js_less a a"
  by (cases a) simp_all

lemma js_less_trans: "js_less a b \<Longrightarrow> js_less b c \<Longrightarrow> js_less a c"
  by (cases a; cases b; cases c) simp_all

lemma js_less_total: "a \<noteq> NaN \<Longrightarrow> b \<noteq> NaN \<Longrightarrow> js_less a b \<or> a = b \<or> js_less b a"
  by (cases a; cases b) auto

lemma js_less_NaN_left: "\<not> js_less NaN b"
  by (cases b) simp_all

lemma js_less_NaN_right: "\<not> js_less a NaN"
  by (cases a) simp_all

lemma js_less_below_Infinity: "js_less a b \<Longrightarrow> js_less a PosInfinity"
  by (cases a; cases b) simp_all

lemma not_below_Infinity: "\<not> js_less a PosInfinity \<Longrightarrow> a = NaN \<or> a = PosInfinity"
  by (cases a) simp_all

section \<open>The scan in the engine's arithmetic\<close>

lemma best_match_fp_snoc:
  "best_match_fp eng probe (faces @ [face]) = scan_step_fp eng probe face (best_match_fp eng probe faces)"
  by (simp add: best_match_fp_def)

text \<open>
  Whatever the engine computes, the scan ends with nothing selected, when no computed
  distance is below \<open>Infinity\<close>, or else at the first of the faces whose computed distance
  is the least; a face whose distance is \<open>NaN\<close> is passed over.
\<close>

lemma best_match_fp_first_least:
  "(best_match_fp eng probe faces = (None, PosInfinity) \<and>
    (\<forall>j<length faces. \<not> js_less (computed_distance eng probe (faces ! j)) PosInfinity)) \<or>
   (\<exists>i<length faces.
      best_match_fp eng probe faces = (Some (faces ! i), computed_distance eng probe (faces ! i)) \<and>
      js_less (computed_distance eng probe (faces ! i)) PosInfinity \<and>
      (\<forall>j<length faces. \<not> js_less (computed_distance eng probe (faces ! j))
                                     (computed_distance eng probe (faces ! i))) \<and>
      (\<forall>j<i. js_less (computed_distance eng probe (faces ! i))
                      (computed_distance eng probe (faces ! j)) \<or>
             computed_distance eng probe (faces ! j) = NaN))"
proof (induction faces rule: rev_induct)
  case Nil
  show ?case by (simp add: best_match_fp_def)
next
  case (snoc face faces)
  let ?D = "computed_distance eng probe"
  let ?n = "length faces"
  have nth_old: "(faces @ [face]) ! j = faces ! j" if "j < ?n" for j
    using that by (simp add: nth_append)
  have nth_new: "(faces @ [face]) ! ?n = face"
    by simp
  from snoc.IH show ?case
  proof (elim disjE conjE exE)
    assume none: "best_match_fp eng probe faces = (None, PosInfinity)"
      and far: "\<forall>j<?n. \<not> js_less (?D (faces ! j)) PosInfinity"
    show ?thesis
    proof (cases "js_less (?D face) PosInfinity")
      case True
      have best: "best_match_fp eng probe (faces @ [face]) = (Some face, ?D face)"
        using True none by (simp add: best_match_fp_snoc scan_step_fp_def)
      have least: "\<not> js_less (?D ((faces @ [face]) ! j)) (?D face)" if "j < Suc ?n" for j
      proof (cases "j < ?n")
        case True
        with far have "?D (faces ! j) = NaN \<or> ?D (faces ! j) = PosInfinity"
          by (simp add: not_below_Infinity)
        then show ?thesis
          using True by (cases "?D face") (auto simp: nth_old)
      next
        case False
        with that have "j = ?n" by simp
        then show ?thesis by (simp add: js_less_irrefl)
      qed
      have first: "js_less (?D face) (?D ((faces @ [face]) ! j)) \<or> ?D ((faces @ [face]) ! j) = NaN"
        if "j < ?n" for j
      proof -
        from far that have "?D (faces ! j) = NaN \<or> ?D (faces ! j) = PosInfinity"
          by (simp add: not_below_Infinity)
        with True that show ?thesis by (auto simp: nth_old)
      qed
      show ?thesis
        apply (rule disjI2)
        apply (rule exI [of _ ?n])
        using best True least first by (simp add: nth_new)
    next
      case False
      have "best_match_fp eng probe (faces @ [face]) = (None, PosInfinity)"
        using False none by (simp add: best_match_fp_snoc scan_step_fp_def)
      moreover have "\<not> js_less (?D ((faces @ [face]) ! j)) PosInfinity" if "j < Suc ?n" for j
        using that far False by (cases "j < ?n") (auto simp: nth_append less_Suc_eq)
      ultimately show ?thesis by simp
    qed
  next
    fix i
    assume i: "i < ?n"
      and some: "best_match_fp eng probe faces = (Some (faces ! i), ?D (faces ! i))"
      and below: "js_less (?D (faces ! i)) PosInfinity"
      and least: "\<forall>j<?n. \<not> js_less (?D (faces ! j)) (?D (faces ! i))"
      and first: "\<forall>j<i. js_less (?D (faces ! i)) (?D (faces ! j)) \<or> ?D (faces ! j) = NaN"
    from below have notNaN: "?D (faces ! i) \<noteq> NaN"
      by auto
    show ?thesis
    proof (cases "js_less (?D face) (?D (faces ! i))")
      case True
      have best: "best_match_fp eng probe (faces @ [face]) = (Some face, ?D face)"
        using True some by (simp add: best_match_fp_snoc scan_step_fp_def)
      have below': "js_less (?D face) PosInfinity"
        using True by (rule js_less_below_Infinity)
      have least': "\<not> js_less (?D ((faces @ [face]) ! j)) (?D face)" if "j < Suc ?n" for j
      proof (cases "j < ?n")
        case True
        note j = this
        show ?thesis
        proof
          assume "js_less (?D ((faces @ [face]) ! j)) (?D face)"
          with j have "js_less (?D (faces ! j)) (?D face)" by (simp add: nth_old)
          with \<open>js_less (?D face) (?D (faces ! i))\<close> have "js_less (?D (faces ! j)) (?D (faces ! i))"
            by (blast intro: js_less_trans)
          with least j show False by simp
        qed
      next
        case False
        with that have "j = ?n" by simp
        then show ?thesis by (simp add: js_less_irrefl)
      qed
      have first': "js_less (?D face) (?D ((faces @ [face]) ! j)) \<or> ?D ((faces @ [face]) ! j) = NaN"
        if "j < ?n" for j
      proof (cases "?D (faces ! j) = NaN")
        case True
        with that show ?thesis by (simp add: nth_old)
      next
        case False
        from least that have "\<not> js_less (?D (faces ! j)) (?D (faces ! i))" by simp
        with js_less_total [OF False notNaN]
        have "?D (faces ! j) = ?D (faces ! i) \<or> js_less (?D (faces ! i)) (?D (faces ! j))"
          by blast
        with True have "js_less (?D face) (?D (faces ! j))"
          by (auto intro: js_less_trans)
        with that show ?thesis by (simp add: nth_old)
      qed
      show ?thesis
        apply (rule disjI2)
        apply (rule exI [of _ ?n])
        using best below' least' first' by (simp add: nth_new)
    next
      case False
      have best: "best_match_fp eng probe (faces @ [face]) = (Some (faces ! i), ?D (faces ! i))"
        using False some by (simp add: best_match_fp_snoc scan_step_fp_def)
      have least': "\<not> js_less (?D ((faces @ [face]) ! j)) (?D (faces ! i))" if "j < Suc ?n" for j
        using that least False by (cases "j < ?n") (auto simp: nth_append less_Suc_eq)
      show ?thesis
        apply (rule disjI2)
        apply (rule exI [of _ i])
        using i best below least' first by (simp add: nth_append)
    qed
  qed
qed

text \<open>
  With the engine that rounds nothing, the computed distance is the one of the first
  model.
\<close>

lemma exact_engine_distance:
  "computed_distance exact_engine probe face = euclideanDistance probe (descriptor face)"
proof -
  have add: "rounded2 (\<lambda>x y. Num (x + y)) js_add a b = js_add a b" for a b
    by (cases a; cases b) (simp_all add: rounded2_def)
  have sub: "rounded2 (\<lambda>x y. Num (x - y)) js_sub a b = js_sub a b" for a b
    by (cases a; cases b) (simp_all add: rounded2_def js_sub_def)
  have pow: "rounded1 (\<lambda>x. Num (x\<^sup>2)) js_pow2 a = js_pow2 a" for a
    by (cases a) (simp_all add: rounded1_def)
  have root: "rounded1 (\<lambda>x. if x < 0 then NaN else Num (sqrt x)) js_sqrt a = js_sqrt a" for a
    by (cases a) (simp_all add: rounded1_def)
  have elt: "element (map Num arr) i = js_index arr i" for arr i
    by (simp add: element_def js_index_def)
  show ?thesis
    by (simp add: computed_distance_def euclideanDistance_fp_def euclideanDistance_def
          exact_engine_def add sub pow root elt)
qed

text \<open>
  In every engine, a stored descriptor shorter than the probe has the distance \<open>NaN\<close>.
\<close>

lemma rounded_sum_NaN:
  "fold (\<lambda>i sum. rounded2 (fp_add eng) js_add sum
           (rounded1 (fp_pow2 eng) js_pow2
              (rounded2 (fp_sub eng) js_sub (element desc1 i) (element desc2 i)))) is NaN = NaN"
  by (induction "is") (simp_all add: rounded2_def)

lemma computed_distance_short:
  assumes "length (descriptor face) < length probe"
  shows "computed_distance eng probe face = NaN"
proof -
  let ?desc1 = "map Num probe" and ?desc2 = "map (to_float32 eng) (descriptor face)"
  let ?n = "length (descriptor face)"
  let ?step = "\<lambda>i sum. rounded2 (fp_add eng) js_add sum
                 (rounded1 (fp_pow2 eng) js_pow2
                    (rounded2 (fp_sub eng) js_sub (element ?desc1 i) (element ?desc2 i)))"
  have split: "[0..<length probe] = [0..<?n] @ ?n # [Suc ?n..<length probe]"
  proof -
    have "[0..<length probe] = [0..<?n] @ [?n..<length probe]"
      using assms upt_add_eq_append [of 0 ?n "length probe - ?n"] by simp
    then show ?thesis using assms by (simp add: upt_conv_Cons)
  qed
  have "element ?desc2 ?n = NaN"
    by (simp add: element_def)
  then have "rounded2 (fp_sub eng) js_sub (element ?desc1 ?n) (element ?desc2 ?n) = NaN"
    by (cases "element ?desc1 ?n") (simp_all add: rounded2_def js_sub_def)
  then have "?step ?n s = NaN" for s
    by (cases s) (simp_all add: rounded1_def rounded2_def)
  then have "fold ?step [0..<length probe] (Num 0) = NaN"
    by (simp add: split rounded_sum_NaN del: upt.simps)
  then show ?thesis
    by (simp add: computed_distance_def euclideanDistance_fp_def rounded1_def)
qed

section \<open>Writing and reading back\<close>

lemma stringify_parse_finite: "numbers_finite v \<Longrightarrow> stringify_parse v = v"
proof (induction v)
  case (JNumber n)
  then show ?case by (cases n) simp_all
next
  case (JArray elements)
  then show ?case by (simp add: list_all_iff map_idI)
next
  case (JObject properties)
  have "map_prod id stringify_parse p = p" if "p \<in> set properties" for p
  proof (cases p)
    case (Pair k v)
    with that JObject.prems have "numbers_finite v"
      by (force simp: list_all_iff)
    moreover from Pair that have "v \<in> Basic_BNFs.snds p" "p \<in> set properties" by simp_all
    ultimately have "stringify_parse v = v" using JObject.IH by blast
    with Pair show ?thesis by simp
  qed
  then show ?case by (simp add: map_idI)
qed simp_all

text \<open>
  The records of the data model hold finite numbers only, so that a store of such records
  is read back as it was written: this is what \<open>Holds\<close> relies on.
\<close>

lemma store_of_faces_finite: "numbers_finite (JArray (map json_of_face faces))"
  by (simp add: json_of_face_def list_all_iff)

lemma store_of_faces_round_trip:
  "saveFaces_raw (JArray (map json_of_face faces)) = Denotes (JArray (map json_of_face faces))"
  by (simp only: saveFaces_raw_def stringify_parse_finite [OF store_of_faces_finite])

section \<open>What a registration does to the store\<close>

text \<open>
  The lookup is made with the name as it was sent. When that name equals a stored name up
  to case, the first such record is overwritten where it stands; when it equals none, the
  new record is appended. Either way the record holds the trimmed name.
\<close>

lemma register_store_effect:
  assumes "required (body_name body) = Some name'"
      and "required (body_image body) = Some image'"
      and "extractFaceDescriptor faceapi image' = Inr (Some detected)"
      and "loadFaces fs = Inr faces"
  shows "(\<forall>i<length faces.
            toLowerCase (name (faces ! i)) = toLowerCase name' \<and>
            (\<forall>j<i. toLowerCase (name (faces ! j)) \<noteq> toLowerCase name') \<longrightarrow>
            post_register faceapi now body fs =
              (FaceRegistered name' (length faces),
               fs\<lparr>faces_json := Holds (faces[i := \<lparr>name = trim name', descriptor = detected,
                                                   registeredAt = now\<rparr>])\<rparr>)) \<and>
         ((\<forall>f\<in>set faces. toLowerCase (name f) \<noteq> toLowerCase name') \<longrightarrow>
            post_register faceapi now body fs =
              (FaceRegistered name' (Suc (length faces)),
               fs\<lparr>faces_json := Holds (faces @ [\<lparr>name = trim name', descriptor = detected,
                                                   registeredAt = now\<rparr>])\<rparr>))"
proof (intro conjI allI impI)
  fix i
  assume "i < length faces"
    and "toLowerCase (name (faces ! i)) = toLowerCase name' \<and>
         (\<forall>j<i. toLowerCase (name (faces ! j)) \<noteq> toLowerCase name')"
  then have "findIndex (\<lambda>f. toLowerCase (name f) = toLowerCase name') faces = int i"
    by (intro findIndex_first) auto
  with assms show "post_register faceapi now body fs =
              (FaceRegistered name' (length faces),
               fs\<lparr>faces_json := Holds (faces[i := \<lparr>name = trim name', descriptor = detected,
                                                   registeredAt = now\<rparr>])\<rparr>)"
    by (simp add: post_register_def saveFaces_def Let_def)
next
  assume "\<forall>f\<in>set faces. toLowerCase (name f) \<noteq> toLowerCase name'"
  then have "findIndex (\<lambda>f. toLowerCase (name f) = toLowerCase name') faces = - 1"
    by (intro findIndex_none) auto
  with assms show "post_register faceapi now body fs =
              (FaceRegistered name' (Suc (length faces)),
               fs\<lparr>faces_json := Holds (faces @ [\<lparr>name = trim name', descriptor = detected,
                                                   registeredAt = now\<rparr>])\<rparr>)"
    by (simp add: post_register_def saveFaces_def Let_def)
qed

section \<open>Registration with a trimmed name\<close>

text \<open>
  When the name of the request has no white space at either end, so that the lookup and
  the stored record use the same string, a registration keeps the names of the store
  distinct up to case.
\<close>

lemma register_trimmed_name_keeps_names_distinct:
  assumes "required (body_name body) = Some name'"
      and "required (body_image body) = Some image'"
      and "extractFaceDescriptor faceapi image' = Inr (Some detected)"
      and "loadFaces fs = Inr faces"
      and "distinct (map (\<lambda>f. toLowerCase (name f)) faces)"
      and "trim name' = name'"
  shows "\<exists>faces'. snd (post_register faceapi now body fs) = fs\<lparr>faces_json := Holds faces'\<rparr> \<and>
                   distinct (map (\<lambda>f. toLowerCase (name f)) faces')"
proof -
  let ?key = "\<lambda>f. toLowerCase (name f)"
  let ?pred = "\<lambda>f. toLowerCase (name f) = toLowerCase name'"
  let ?rec = "\<lparr>name = trim name', descriptor = detected, registeredAt = now\<rparr>"
  show ?thesis
  proof (cases "findIndex ?pred faces \<ge> 0")
    case True
    let ?i = "nat (findIndex ?pred faces)"
    from findIndex_hit [OF True] have i: "?i < length faces" and hit: "?key (faces ! ?i) = toLowerCase name'"
      by simp_all
    have "map ?key (faces[?i := ?rec]) = (map ?key faces)[?i := toLowerCase name']"
      using assms(6) by (simp add: map_update)
    also have "\<dots> = map ?key faces"
      using i hit by (metis list_update_id nth_map)
    finally have "distinct (map ?key (faces[?i := ?rec]))"
      using assms(5) by simp
    moreover have "snd (post_register faceapi now body fs) = fs\<lparr>faces_json := Holds (faces[?i := ?rec])\<rparr>"
      using assms(1-4) True by (simp add: post_register_def saveFaces_def Let_def)
    ultimately show ?thesis by blast
  next
    case False
    from findIndex_miss [OF False] have "toLowerCase name' \<notin> set (map ?key faces)"
      by auto
    then have "distinct (map ?key (faces @ [?rec]))"
      using assms(5,6) by simp
    moreover have "snd (post_register faceapi now body fs) = fs\<lparr>faces_json := Holds (faces @ [?rec])\<rparr>"
      using assms(1-4) False by (simp add: post_register_def saveFaces_def Let_def)
    ultimately show ?thesis by blast
  qed
qed

section \<open>The claims\<close>

subsection \<open>C1: the match\<close>

text \<open>
  C1, as the code has it. For every probe and every store that is not empty,
  \<open>POST /api/attendance\<close> (with an attendance log it can read) computes for every stored
  face, in the engine's arithmetic, the distance \<open>euclideanDistance\<close> between the probe and
  the stored descriptor as a \<open>Float32Array\<close>. When no computed distance is below
  \<open>Infinity\<close> it answers \<open>matched: false\<close>. Otherwise it selects the first of the faces
  whose computed distance is the least (a distance \<open>NaN\<close> is never selected), and it
  answers with a match, which carries that face's name and the confidence
  \<open>Math.round((1 - distance) * 100)\<close> computed in the same arithmetic, and appends the event
  to the log, exactly when that distance is strictly below 0.6, the threshold fixed in the
  handler. In every other case it answers \<open>matched: false\<close>, a reply that carries no
  distance, and changes nothing.
\<close>

theorem attendance_marks_first_least_computed_distance:
  assumes "required body = Some image'"
      and "extractFaceDescriptor faceapi image' = Inr (Some probe)"
      and "loadFaces fs = Inr faces"
      and "faces \<noteq> []"
      and "loadAttendance fs = Inr attendanceLog"
  shows "((\<forall>j<length faces. \<not> js_less (computed_distance eng probe (faces ! j)) PosInfinity) \<and>
          post_attendance_fp eng faceapi now body fs = (NotRecognized, fs)) \<or>
         (\<exists>i<length faces.
            js_less (computed_distance eng probe (faces ! i)) PosInfinity \<and>
            (\<forall>j<length faces. \<not> js_less (computed_distance eng probe (faces ! j))
                                           (computed_distance eng probe (faces ! i))) \<and>
            (\<forall>j<i. js_less (computed_distance eng probe (faces ! i))
                            (computed_distance eng probe (faces ! j)) \<or>
                   computed_distance eng probe (faces ! j) = NaN) \<and>
            post_attendance_fp eng faceapi now body fs =
              (if js_less (computed_distance eng probe (faces ! i)) THRESHOLD_fp
               then (AttendanceMarked (name (faces ! i))
                       (computed_confidence eng (computed_distance eng probe (faces ! i))) now,
                     fs\<lparr>attendance_json := Holds (attendanceLog @
                       [\<lparr>att_name = name (faces ! i), timestamp = now,
                         confidence = computed_confidence eng
                                        (computed_distance eng probe (faces ! i))\<rparr>])\<rparr>)
               else (NotRecognized, fs)))"
proof -
  let ?D = "computed_distance eng probe"
  from best_match_fp_first_least [of eng probe faces] show ?thesis
  proof (elim disjE conjE exE)
    assume "best_match_fp eng probe faces = (None, PosInfinity)"
      and far: "\<forall>j<length faces. \<not> js_less (?D (faces ! j)) PosInfinity"
    then have "post_attendance_fp eng faceapi now body fs = (NotRecognized, fs)"
      using assms by (simp add: post_attendance_fp_def)
    with far show ?thesis by blast
  next
    fix i
    assume i: "i < length faces"
      and best: "best_match_fp eng probe faces = (Some (faces ! i), ?D (faces ! i))"
      and below: "js_less (?D (faces ! i)) PosInfinity"
      and least: "\<forall>j<length faces. \<not> js_less (?D (faces ! j)) (?D (faces ! i))"
      and first: "\<forall>j<i. js_less (?D (faces ! i)) (?D (faces ! j)) \<or> ?D (faces ! j) = NaN"
    have "post_attendance_fp eng faceapi now body fs =
              (if js_less (?D (faces ! i)) THRESHOLD_fp
               then (AttendanceMarked (name (faces ! i)) (computed_confidence eng (?D (faces ! i))) now,
                     fs\<lparr>attendance_json := Holds (attendanceLog @
                       [\<lparr>att_name = name (faces ! i), timestamp = now,
                         confidence = computed_confidence eng (?D (faces ! i))\<rparr>])\<rparr>)
               else (NotRecognized, fs))"
      using assms best by (simp add: post_attendance_fp_def)
    with i below least first show ?thesis by blast
  qed
qed

theorem attendance_marks_first_least_computed_distance_witness:
  "post_attendance_fp exact_engine (\<lambda>_. Face [0, 0]) ''t1'' (Some ''img'')
     \<lparr>faces_json = Holds [\<lparr>name = ''Ann'', descriptor = [3, 4], registeredAt = ''t0''\<rparr>,
                          \<lparr>name = ''Bob'', descriptor = [0, 0], registeredAt = ''t0''\<rparr>,
                          \<lparr>name = ''Cy'', descriptor = [0, 0], registeredAt = ''t0''\<rparr>],
      attendance_json = Absent\<rparr>
   = (AttendanceMarked ''Bob'' (Num 100) ''t1'',
      \<lparr>faces_json = Holds [\<lparr>name = ''Ann'', descriptor = [3, 4], registeredAt = ''t0''\<rparr>,
                           \<lparr>name = ''Bob'', descriptor = [0, 0], registeredAt = ''t0''\<rparr>,
                           \<lparr>name = ''Cy'', descriptor = [0, 0], registeredAt = ''t0''\<rparr>],
       attendance_json = Holds [\<lparr>att_name = ''Bob'', timestamp = ''t1'', confidence = Num 100\<rparr>]\<rparr>)"
proof -
  let ?faces = "[\<lparr>name = ''Ann'', descriptor = [3, 4::real], registeredAt = ''t0''\<rparr>,
                 \<lparr>name = ''Bob'', descriptor = [0, 0], registeredAt = ''t0''\<rparr>,
                 \<lparr>name = ''Cy'', descriptor = [0, 0], registeredAt = ''t0''\<rparr>]"
  let ?fs = "\<lparr>faces_json = Holds ?faces, attendance_json = Absent\<rparr>"
  let ?D = "computed_distance exact_engine [0, 0]"
  have h1: "required (Some ''img'') = Some ''img''" by (simp add: required_def)
  have h2: "extractFaceDescriptor (\<lambda>_. Face [0, 0]) ''img'' = Inr (Some [0, 0])"
    by (simp add: extractFaceDescriptor_def)
  have h3: "loadFaces ?fs = Inr ?faces" by (simp add: loadFaces_def)
  have h4: "?faces \<noteq> []" by simp
  have h5: "loadAttendance ?fs = Inr []" by (simp add: loadAttendance_def)
  have d0: "?D (?faces ! 0) = Num (sqrt 25)"
    by (simp add: exact_engine_distance euclideanDistance_def js_index_def js_sub_def upt_rec)
  have d1: "?D (?faces ! 1) = Num 0"
    by (simp add: exact_engine_distance euclideanDistance_def js_index_def js_sub_def upt_rec)
  have d2: "?D (?faces ! 2) = Num 0"
    by (simp add: exact_engine_distance euclideanDistance_def js_index_def js_sub_def upt_rec)
  have conf: "computed_confidence exact_engine (Num 0) = Num 100"
    by (simp add: computed_confidence_def exact_engine_def rounded2_def)
  from attendance_marks_first_least_computed_distance [OF h1 h2 h3 h4 h5, of exact_engine "''t1''"]
  show ?thesis
  proof (elim disjE conjE exE)
    assume far: "\<forall>j<length ?faces. \<not> js_less (?D (?faces ! j)) PosInfinity"
    from far [rule_format, of 1] have "\<not> js_less (?D (?faces ! 1)) PosInfinity" by simp
    with d1 show ?thesis by simp
  next
    fix i
    assume i: "i < length ?faces"
      and least: "\<forall>j<length ?faces. \<not> js_less (?D (?faces ! j)) (?D (?faces ! i))"
      and first: "\<forall>j<i. js_less (?D (?faces ! i)) (?D (?faces ! j)) \<or> ?D (?faces ! j) = NaN"
      and run: "post_attendance_fp exact_engine (\<lambda>_. Face [0, 0]) ''t1'' (Some ''img'') ?fs =
              (if js_less (?D (?faces ! i)) THRESHOLD_fp
               then (AttendanceMarked (name (?faces ! i)) (computed_confidence exact_engine (?D (?faces ! i))) ''t1'',
                     ?fs\<lparr>attendance_json := Holds ([] @
                       [\<lparr>att_name = name (?faces ! i), timestamp = ''t1'',
                         confidence = computed_confidence exact_engine (?D (?faces ! i))\<rparr>])\<rparr>)
               else (NotRecognized, ?fs))"
    from i have "i = 0 \<or> i = 1 \<or> i = 2" by auto
    moreover have "i \<noteq> 0"
    proof
      assume "i = 0"
      with least [rule_format, of 1] have "\<not> js_less (?D (?faces ! 1)) (?D (?faces ! 0))"
        by simp
      with d0 d1 show False by simp
    qed
    moreover have "i \<noteq> 2"
    proof
      assume "i = 2"
      with first [rule_format, of 1]
      have "js_less (?D (?faces ! 2)) (?D (?faces ! 1)) \<or> ?D (?faces ! 1) = NaN"
        by simp
      with d1 d2 show False by simp
    qed
    ultimately have "i = 1" by simp
    with run d1 conf show ?thesis by (simp add: THRESHOLD_fp_def)
  qed
qed

text \<open>
  C1 as stated does not hold of the code. The reply for a face that is not recognised is
  the same whatever the best distance was (1 and 2 below), so it does not carry that
  distance. And a stored descriptor shorter than the probe has no distance but \<open>NaN\<close>:
  the scan of such a store, though it is not empty, ends with no face selected.
\<close>

theorem attendance_match_counterexample:
  "fst (post_attendance_fp exact_engine (\<lambda>_. Face [1]) ''t1'' (Some ''img'')
          \<lparr>faces_json = Holds [\<lparr>name = ''Ann'', descriptor = [0], registeredAt = ''t0''\<rparr>],
           attendance_json = Absent\<rparr>) = NotRecognized \<and>
   fst (post_attendance_fp exact_engine (\<lambda>_. Face [2]) ''t1'' (Some ''img'')
          \<lparr>faces_json = Holds [\<lparr>name = ''Ann'', descriptor = [0], registeredAt = ''t0''\<rparr>],
           attendance_json = Absent\<rparr>) = NotRecognized \<and>
   best_match_fp exact_engine [1] [\<lparr>name = ''Ann'', descriptor = [0], registeredAt = ''t0''\<rparr>]
     = (Some \<lparr>name = ''Ann'', descriptor = [0], registeredAt = ''t0''\<rparr>, Num 1) \<and>
   best_match_fp exact_engine [2] [\<lparr>name = ''Ann'', descriptor = [0], registeredAt = ''t0''\<rparr>]
     = (Some \<lparr>name = ''Ann'', descriptor = [0], registeredAt = ''t0''\<rparr>, Num 2) \<and>
   best_match_fp exact_engine [0, 0] [\<lparr>name = ''Ann'', descriptor = [0], registeredAt = ''t0''\<rparr>]
     = (None, PosInfinity)"
  by (simp add: post_attendance_fp_def required_def extractFaceDescriptor_def loadFaces_def
        best_match_fp_def scan_step_fp_def exact_engine_distance euclideanDistance_def
        js_index_def js_sub_def THRESHOLD_fp_def loadAttendance_def upt_rec)

subsection \<open>C2: one record for each name\<close>

text \<open>
  C2. Two registrations from an empty store, of \<open>Bob\<close> and then of \<open>Bob\<close> followed by a
  space, leave two records with the name \<open>Bob\<close>: the lookup compares the name as it was
  sent, the record stores it trimmed.
\<close>

theorem register_padded_name_twice:
  "snd (post_register (\<lambda>_. Face [1]) ''t2'' \<lparr>body_name = Some ''Bob '', body_image = Some ''img''\<rparr>
     (snd (post_register (\<lambda>_. Face [0]) ''t1'' \<lparr>body_name = Some ''Bob'', body_image = Some ''img''\<rparr>
        \<lparr>faces_json = Absent, attendance_json = Absent\<rparr>)))
   = \<lparr>faces_json = Holds [\<lparr>name = ''Bob'', descriptor = [0], registeredAt = ''t1''\<rparr>,
                          \<lparr>name = ''Bob'', descriptor = [1], registeredAt = ''t2''\<rparr>],
      attendance_json = Absent\<rparr>"
  by code_simp

subsection \<open>C3: replace in place or append\<close>

text \<open>
  C3. With \<open>Ann\<close> and \<open>Bob\<close> in the store, registering \<open>bob\<close> followed by a space does
  not replace the record of \<open>Bob\<close>: the lookup with the name as sent finds nothing, a third
  record is appended under the trimmed name \<open>bob\<close>, and the count goes from 2 to 3.
\<close>

theorem register_padded_name_appends:
  "post_register (\<lambda>_. Face [1]) ''t2'' \<lparr>body_name = Some ''bob '', body_image = Some ''img''\<rparr>
     \<lparr>faces_json = Holds [\<lparr>name = ''Ann'', descriptor = [0], registeredAt = ''t0''\<rparr>,
                          \<lparr>name = ''Bob'', descriptor = [0], registeredAt = ''t1''\<rparr>],
      attendance_json = Absent\<rparr>
   = (FaceRegistered ''bob '' 3,
      \<lparr>faces_json = Holds [\<lparr>name = ''Ann'', descriptor = [0], registeredAt = ''t0''\<rparr>,
                           \<lparr>name = ''Bob'', descriptor = [0], registeredAt = ''t1''\<rparr>,
                           \<lparr>name = ''bob'', descriptor = [1], registeredAt = ''t2''\<rparr>],
       attendance_json = Absent\<rparr>)"
  by code_simp

subsection \<open>C4: attendance with an empty store\<close>

text \<open>
  C4, as the code has it. With an image in the request and an empty store (no file, or a
  file with no record), \<open>POST /api/attendance\<close> answers that no faces are registered
  when the extractor finds a face; when the extractor finds none the answer is that no
  face was detected, and when the image cannot be loaded it is a server error: the
  extractor runs before the store is read. The data directory stays as it was.
\<close>

theorem attendance_empty_store:
  assumes "required body = Some image'" and "loadFaces fs = Inr []"
  shows "post_attendance faceapi now body fs =
           (case extractFaceDescriptor faceapi image' of
              Inr (Some detected) \<Rightarrow> (NoFacesRegistered, fs)
            | Inr None \<Rightarrow> (NoFaceDetected, fs)
            | Inl e \<Rightarrow> (ServerError e, fs))"
  using assms by (simp add: post_attendance_def split: sum.splits option.splits)

theorem attendance_empty_store_witness:
  "post_attendance (\<lambda>_. Face [0]) ''t1'' (Some ''img'') \<lparr>faces_json = Absent, attendance_json = Absent\<rparr>
     = (NoFacesRegistered, \<lparr>faces_json = Absent, attendance_json = Absent\<rparr>)"
proof -
  have h1: "required (Some ''img'') = Some ''img''" by (simp add: required_def)
  have h2: "loadFaces \<lparr>faces_json = Absent, attendance_json = Absent\<rparr> = Inr []"
    by (simp add: loadFaces_def)
  from attendance_empty_store [OF h1 h2, of "\<lambda>_. Face [0]" "''t1''"]
  show ?thesis by (simp add: extractFaceDescriptor_def)
qed

text \<open>
  C4 as stated does not hold of the code: with an empty store and an image in which the
  extractor finds no face, the answer is that no face was detected.
\<close>

theorem attendance_empty_store_without_face_counterexample:
  "post_attendance (\<lambda>_. NoFace) ''t1'' (Some ''img'') \<lparr>faces_json = Absent, attendance_json = Absent\<rparr>
     = (NoFaceDetected, \<lparr>faces_json = Absent, attendance_json = Absent\<rparr>)"
  by (simp add: post_attendance_def required_def extractFaceDescriptor_def)

subsection \<open>C5: descriptors of different lengths\<close>

text \<open>
  C5, as the code has it. No length is compared and nothing fails. For a stored
  descriptor at least as long as the probe, \<open>euclideanDistance\<close> is the Euclidean
  distance to the descriptor cut to the probe's length; for a shorter one it is \<open>NaN\<close>,
  and the scan leaves the best match as it was.
\<close>

theorem distance_on_different_lengths:
  "(length desc1 \<le> length desc2 \<longrightarrow>
      euclideanDistance desc1 desc2 = Num (spec_distance desc1 (take (length desc1) desc2))) \<and>
   (length desc2 < length desc1 \<longrightarrow>
      euclideanDistance desc1 desc2 = NaN \<and>
      scan_step desc1 (face\<lparr>descriptor := desc2\<rparr>) best = best)"
proof (intro conjI impI)
  assume "length desc1 \<le> length desc2"
  then show "euclideanDistance desc1 desc2 = Num (spec_distance desc1 (take (length desc1) desc2))"
    by (simp add: euclideanDistance_covering spec_distance_def)
next
  assume short: "length desc2 < length desc1"
  then show "euclideanDistance desc1 desc2 = NaN"
    by (rule euclideanDistance_short)
  then show "scan_step desc1 (face\<lparr>descriptor := desc2\<rparr>) best = best"
    by (simp add: scan_step_def)
qed

theorem distance_on_different_lengths_witness:
  "euclideanDistance [3] [0, 5] = Num 3 \<and>
   euclideanDistance [0, 0] [0] = NaN \<and>
   scan_step [0, 0] \<lparr>name = ''Ann'', descriptor = [0], registeredAt = ''t0''\<rparr> (None, PosInfinity)
     = (None, PosInfinity)"
proof -
  have "length [3::real] \<le> length [0, 5::real]" by simp
  with distance_on_different_lengths [of "[3]" "[0, 5]"]
  have a: "euclideanDistance [3] [0, 5] = Num (spec_distance [3] (take (length [3::real]) [0, 5]))"
    by blast
  have "length [0::real] < length [0, 0::real]" by simp
  with distance_on_different_lengths
         [of "[0, 0]" "[0]" "\<lparr>name = ''Ann'', descriptor = [], registeredAt = ''t0''\<rparr>"
             "(None, PosInfinity)"]
  have b: "euclideanDistance [0, 0] [0] = NaN \<and>
           scan_step [0, 0] (\<lparr>name = ''Ann'', descriptor = [], registeredAt = ''t0''\<rparr>\<lparr>descriptor := [0]\<rparr>)
             (None, PosInfinity) = (None, PosInfinity)"
    by blast
  from a b show ?thesis by (simp add: spec_distance_def)
qed

text \<open>
  C5 as stated does not hold of the code: a stored descriptor longer than the probe is cut
  without notice (distance 0, a match with confidence 100), and a shorter one gives
  \<open>NaN\<close> and the reply for a face that is not recognised.
\<close>

theorem distance_length_mismatch_counterexample:
  "euclideanDistance [0] [0, 5] = Num 0 \<and>
   fst (post_attendance (\<lambda>_. Face [0]) ''t1'' (Some ''img'')
          \<lparr>faces_json = Holds [\<lparr>name = ''Ann'', descriptor = [0, 5], registeredAt = ''t0''\<rparr>],
           attendance_json = Absent\<rparr>)
     = AttendanceMarked ''Ann'' (Num 100) ''t1'' \<and>
   euclideanDistance [0, 0] [0] = NaN \<and>
   fst (post_attendance (\<lambda>_. Face [0, 0]) ''t1'' (Some ''img'')
          \<lparr>faces_json = Holds [\<lparr>name = ''Ann'', descriptor = [0], registeredAt = ''t0''\<rparr>],
           attendance_json = Absent\<rparr>)
     = NotRecognized"
  by (simp add: post_attendance_def required_def extractFaceDescriptor_def loadFaces_def
        best_match_def scan_step_def euclideanDistance_def js_index_def js_sub_def
        THRESHOLD_def loadAttendance_def upt_rec)

subsection \<open>C6: registration without a face\<close>

text \<open>
  C6. When a registration carries a name and an image and the extractor reports no face
  for the image, the answer is that no face was detected, and the data directory is the
  same after the call as before it.
\<close>

theorem register_without_face_leaves_store:
  assumes "required (body_name body) = Some name'"
      and "required (body_image body) = Some image'"
      and "extractFaceDescriptor faceapi image' = Inr None"
  shows "post_register faceapi now body fs = (NoFaceDetected, fs)"
  using assms by (simp add: post_register_def)

theorem register_without_face_leaves_store_witness:
  "post_register (\<lambda>_. NoFace) ''t1'' \<lparr>body_name = Some ''Ann'', body_image = Some ''img''\<rparr>
     \<lparr>faces_json = Holds [\<lparr>name = ''Ann'', descriptor = [0], registeredAt = ''t0''\<rparr>],
      attendance_json = Absent\<rparr>
   = (NoFaceDetected,
      \<lparr>faces_json = Holds [\<lparr>name = ''Ann'', descriptor = [0], registeredAt = ''t0''\<rparr>],
       attendance_json = Absent\<rparr>)"
proof -
  let ?body = "\<lparr>body_name = Some ''Ann'', body_image = Some ''img''\<rparr>"
  have h1: "required (body_name ?body) = Some ''Ann''" by (simp add: required_def)
  have h2: "required (body_image ?body) = Some ''img''" by (simp add: required_def)
  have h3: "extractFaceDescriptor (\<lambda>_. NoFace) ''img'' = Inr None"
    by (simp add: extractFaceDescriptor_def)
  from register_without_face_leaves_store [OF h1 h2 h3] show ?thesis .
qed

subsection \<open>C7: names that are not empty\<close>

text \<open>
  C7. A registration whose name is a single space passes the check for a missing name and
  stores a record whose name is the empty string.
\<close>

theorem register_blank_name_stored_empty:
  "post_register (\<lambda>_. Face [0]) ''t1'' \<lparr>body_name = Some '' '', body_image = Some ''img''\<rparr>
     \<lparr>faces_json = Absent, attendance_json = Absent\<rparr>
   = (FaceRegistered '' '' 1,
      \<lparr>faces_json = Holds [\<lparr>name = [], descriptor = [0], registeredAt = ''t1''\<rparr>],
       attendance_json = Absent\<rparr>)"
  by code_simp

subsection \<open>C8: saving what was loaded\<close>

text \<open>
  C8, as the code has it. When \<open>loadFaces\<close> returns a value other than the empty array
  and every number in it is finite, saving that value with \<open>saveFaces\<close> leaves a file
  that denotes the same value: the same records with the same fields and values, in the
  same order.
\<close>

theorem save_load_round_trip_finite:
  assumes "loadFaces_raw file = Inr faces" and "faces \<noteq> JArray []" and "numbers_finite faces"
  shows "saveFaces_raw faces = file"
  using assms
  by (auto simp: loadFaces_raw_def saveFaces_raw_def stringify_parse_finite split: faces_file.splits)

theorem save_load_round_trip_finite_witness:
  "saveFaces_raw (JArray [JObject [(''name'', JString ''Ann''),
                                   (''descriptor'', JArray [JNumber (Num 0), JNumber (Num 1)]),
                                   (''registeredAt'', JString ''t0'')]])
   = Denotes (JArray [JObject [(''name'', JString ''Ann''),
                               (''descriptor'', JArray [JNumber (Num 0), JNumber (Num 1)]),
                               (''registeredAt'', JString ''t0'')]])"
proof -
  let ?v = "JArray [JObject [(''name'', JString ''Ann''),
                             (''descriptor'', JArray [JNumber (Num 0), JNumber (Num 1)]),
                             (''registeredAt'', JString ''t0'')]]"
  have h1: "loadFaces_raw (Denotes ?v) = Inr ?v" by (simp add: loadFaces_raw_def)
  have h2: "?v \<noteq> JArray []" by simp
  have h3: "numbers_finite ?v" by simp
  from save_load_round_trip_finite [OF h1 h2 h3] show ?thesis .
qed

text \<open>
  C8 as stated does not hold of the code. A store that can be loaded may hold a number
  that is not finite (the literal \<open>1e999\<close> is read as \<open>Infinity\<close>); \<open>saveFaces\<close> writes
  \<open>null\<close> in its place, and the file no longer denotes what it did.
\<close>

theorem save_load_round_trip_counterexample:
  "loadFaces_raw (Denotes (JArray [JObject [(''name'', JString ''Ann''),
                                            (''descriptor'', JArray [JNumber PosInfinity]),
                                            (''registeredAt'', JString ''t0'')]]))
     = Inr (JArray [JObject [(''name'', JString ''Ann''),
                             (''descriptor'', JArray [JNumber PosInfinity]),
                             (''registeredAt'', JString ''t0'')]]) \<and>
   saveFaces_raw (JArray [JObject [(''name'', JString ''Ann''),
                                   (''descriptor'', JArray [JNumber PosInfinity]),
                                   (''registeredAt'', JString ''t0'')]])
     = Denotes (JArray [JObject [(''name'', JString ''Ann''),
                                 (''descriptor'', JArray [JNull]),
                                 (''registeredAt'', JString ''t0'')]]) \<and>
   saveFaces_raw (JArray [JObject [(''name'', JString ''Ann''),
                                   (''descriptor'', JArray [JNumber PosInfinity]),
                                   (''registeredAt'', JString ''t0'')]])
     \<noteq> Denotes (JArray [JObject [(''name'', JString ''Ann''),
                                 (''descriptor'', JArray [JNumber PosInfinity]),
                                 (''registeredAt'', JString ''t0'')]])"
  by (simp add: loadFaces_raw_def saveFaces_raw_def)

subsection \<open>C9: the listing of faces\<close>

text \<open>
  C9. \<open>GET /api/faces\<close> gives the same reply for two stores whose records agree, one by
  one, on name and registration time, whatever their descriptors are.
\<close>

theorem faces_listing_hides_descriptors:
  assumes "loadFaces fs1 = Inr faces1" and "loadFaces fs2 = Inr faces2"
      and "map name faces1 = map name faces2"
      and "map registeredAt faces1 = map registeredAt faces2"
  shows "get_faces fs1 = get_faces fs2"
proof -
  have len: "length faces1 = length faces2"
    using assms(3) by (rule map_eq_imp_length_eq)
  have "map (\<lambda>f. (name f, registeredAt f)) faces1 = map (\<lambda>f. (name f, registeredAt f)) faces2"
  proof (rule nth_equalityI)
    show "length (map (\<lambda>f. (name f, registeredAt f)) faces1)
            = length (map (\<lambda>f. (name f, registeredAt f)) faces2)"
      using len by simp
  next
    fix i assume "i < length (map (\<lambda>f. (name f, registeredAt f)) faces1)"
    then have i: "i < length faces1" "i < length faces2" using len by simp_all
    then have "map name faces1 ! i = name (faces1 ! i)" "map name faces2 ! i = name (faces2 ! i)"
      "map registeredAt faces1 ! i = registeredAt (faces1 ! i)"
      "map registeredAt faces2 ! i = registeredAt (faces2 ! i)"
      by simp_all
    with assms(3,4) have "name (faces1 ! i) = name (faces2 ! i)"
      "registeredAt (faces1 ! i) = registeredAt (faces2 ! i)"
      by simp_all
    with i show "map (\<lambda>f. (name f, registeredAt f)) faces1 ! i
                   = map (\<lambda>f. (name f, registeredAt f)) faces2 ! i"
      by simp
  qed
  with len assms(1,2) show ?thesis by (simp add: get_faces_def)
qed

theorem faces_listing_hides_descriptors_witness:
  "get_faces \<lparr>faces_json = Holds [\<lparr>name = ''Ann'', descriptor = [0, 1], registeredAt = ''t0''\<rparr>],
              attendance_json = Absent\<rparr>
   = get_faces \<lparr>faces_json = Holds [\<lparr>name = ''Ann'', descriptor = [7, 8, 9], registeredAt = ''t0''\<rparr>],
                attendance_json = Absent\<rparr>"
proof -
  let ?a = "[\<lparr>name = ''Ann'', descriptor = [0, 1::real], registeredAt = ''t0''\<rparr>]"
  let ?b = "[\<lparr>name = ''Ann'', descriptor = [7, 8, 9::real], registeredAt = ''t0''\<rparr>]"
  have h1: "loadFaces \<lparr>faces_json = Holds ?a, attendance_json = Absent\<rparr> = Inr ?a"
    by (simp add: loadFaces_def)
  have h2: "loadFaces \<lparr>faces_json = Holds ?b, attendance_json = Absent\<rparr> = Inr ?b"
    by (simp add: loadFaces_def)
  have h3: "map name ?a = map name ?b" by simp
  have h4: "map registeredAt ?a = map registeredAt ?b" by simp
  from faces_listing_hides_descriptors [OF h1 h2 h3 h4] show ?thesis .
qed

subsection \<open>C10: the confidence of an appended event\<close>

text \<open>
  C10. Every attendance event that \<open>POST /api/attendance\<close> appends has a confidence of
  at least 40. Whatever the request and the data directory, the handler either leaves the
  directory as it was, or it appends exactly one event to the attendance log, answers
  with that event's name, confidence and timestamp, and the event's confidence is an
  integer between 40 and 100: a negative confidence cannot be reached through this route.
\<close>

theorem attendance_confidence_at_least_40:
  assumes "post_attendance faceapi now body fs = (reply, fs')"
  shows "fs' = fs \<or>
         (\<exists>attendanceLog event c.
            loadAttendance fs = Inr attendanceLog \<and>
            fs' = fs\<lparr>attendance_json := Holds (attendanceLog @ [event])\<rparr> \<and>
            reply = AttendanceMarked (att_name event) (confidence event) (timestamp event) \<and>
            confidence event = Num (of_int c) \<and> 40 \<le> c \<and> c \<le> 100)"
proof (cases "fs' = fs")
  case True
  then show ?thesis by simp
next
  case False
  with assms obtain image' probe faces bestMatch bestDistance attendanceLog
    where "required body = Some image'"
      and "extractFaceDescriptor faceapi image' = Inr (Some probe)"
      and "loadFaces fs = Inr faces"
      and best: "best_match probe faces = (Some bestMatch, bestDistance)"
      and below: "js_less bestDistance THRESHOLD"
      and log: "loadAttendance fs = Inr attendanceLog"
      and result: "(reply, fs') =
             (AttendanceMarked (name bestMatch)
                (js_round (js_mul (js_sub (Num 1) bestDistance) (Num 100))) now,
              fs\<lparr>attendance_json := Holds (attendanceLog @
                 [\<lparr>att_name = name bestMatch, timestamp = now,
                   confidence = js_round (js_mul (js_sub (Num 1) bestDistance) (Num 100))\<rparr>])\<rparr>)"
    by (auto simp: post_attendance_def Let_def split: option.splits sum.splits if_splits prod.splits)
  from best best_match_range [of probe faces] obtain d where d: "bestDistance = Num d" "0 \<le> d"
    by auto
  with below have "d < 6 / 10" by (simp add: THRESHOLD_def)
  with d have range: "40 \<le> \<lfloor>(1 - d) * 100 + 1 / 2\<rfloor> \<and> \<lfloor>(1 - d) * 100 + 1 / 2\<rfloor> \<le> 100"
    by (simp add: confidence_range)
  have conf: "js_round (js_mul (js_sub (Num 1) bestDistance) (Num 100))
                = Num (of_int \<lfloor>(1 - d) * 100 + 1 / 2\<rfloor>)"
    using d by (simp add: js_sub_def)
  show ?thesis
    using log result range conf by auto
qed

theorem attendance_confidence_at_least_40_witness:
  "\<exists>event c.
     snd (post_attendance (\<lambda>_. Face [0]) ''t1'' (Some ''img'')
            \<lparr>faces_json = Holds [\<lparr>name = ''Ann'', descriptor = [0], registeredAt = ''t0''\<rparr>],
             attendance_json = Absent\<rparr>)
       = \<lparr>faces_json = Holds [\<lparr>name = ''Ann'', descriptor = [0], registeredAt = ''t0''\<rparr>],
          attendance_json = Holds [event]\<rparr> \<and>
     confidence event = Num (of_int c) \<and> 40 \<le> c \<and> c \<le> 100"
proof -
  let ?fs = "\<lparr>faces_json = Holds [\<lparr>name = ''Ann'', descriptor = [0], registeredAt = ''t0''\<rparr>],
             attendance_json = Absent\<rparr>"
  let ?fs' = "\<lparr>faces_json = Holds [\<lparr>name = ''Ann'', descriptor = [0], registeredAt = ''t0''\<rparr>],
       attendance_json = Holds [\<lparr>att_name = ''Ann'', timestamp = ''t1'', confidence = Num 100\<rparr>]\<rparr>"
  have run: "post_attendance (\<lambda>_. Face [0]) ''t1'' (Some ''img'') ?fs
               = (AttendanceMarked ''Ann'' (Num 100) ''t1'', ?fs')"
    by (simp add: post_attendance_def required_def extractFaceDescriptor_def loadFaces_def
        best_match_def scan_step_def euclideanDistance_def js_index_def js_sub_def
        THRESHOLD_def loadAttendance_def)
  from attendance_confidence_at_least_40 [OF run]
  show ?thesis
    by (auto simp: run loadAttendance_def)
qed

end
